theory Spec2Isabelle
  imports Main "HOL-Library.Char_ord" "HOL-Library.List_Lexorder"
begin

section \<open>Python values used by the CVEMaps builders\<close>

text \<open>
  The builders are Python scripts over JSON documents. Strings are \<open>string\<close>; a JSON field
  read with \<open>.get\<close> is a \<open>string option\<close> (\<open>None\<close>: the key is absent). Python integers are
  \<open>int\<close>. A \<open>dict\<close> is an association list in insertion order with distinct keys, since
  several builders depend on the order of \<open>.items()\<close>. A Python \<open>set\<close> is a duplicate-free
  list; Python leaves the iteration order of a set open, the model iterates in order of first
  insertion, and the theorems below are stated on memberships and look-ups so that they do
  not depend on that choice. JSON values of an unexpected type (a number where a string is
  expected, \<open>null\<close> for a list) are outside the model.
\<close>

definition truthy :: "string option \<Rightarrow> bool" where
  "truthy v = (case v of None \<Rightarrow> False | Some s \<Rightarrow> s \<noteq> [])"

definition py_or :: "string option \<Rightarrow> string option \<Rightarrow> string option" where
  "py_or a b = (if truthy a then a else b)"

definition startswith :: "string \<Rightarrow> string \<Rightarrow> bool" where
  "startswith s p = (take (length p) s = p)"

definition set_add :: "'a \<Rightarrow> 'a list \<Rightarrow> 'a list" where
  "set_add x xs = (if x \<in> set xs then xs else xs @ [x])"

text \<open>\<open>d[k] = v\<close> on a dict: an existing key keeps its position, a new key goes last.\<close>

fun dict_set :: "'k \<Rightarrow> 'v \<Rightarrow> ('k \<times> 'v) list \<Rightarrow> ('k \<times> 'v) list" where
  "dict_set k v [] = [(k, v)]"
| "dict_set k v ((k', v') # rest) =
     (if k = k' then (k', v) # rest else (k', v') # dict_set k v rest)"

text \<open>\<open>d[k] += n\<close> on a \<open>defaultdict(int)\<close>.\<close>

fun dict_add :: "'k \<Rightarrow> int \<Rightarrow> ('k \<times> int) list \<Rightarrow> ('k \<times> int) list" where
  "dict_add k n [] = [(k, n)]"
| "dict_add k n ((k', c) # rest) =
     (if k = k' then (k', c + n) # rest else (k', c) # dict_add k n rest)"


text \<open>\<open>d[k].add(x)\<close> on a \<open>defaultdict(set)\<close>.\<close>

fun dict_set_add :: "'k \<Rightarrow> 'a \<Rightarrow> ('k \<times> 'a list) list \<Rightarrow> ('k \<times> 'a list) list" where
  "dict_set_add k x [] = [(k, [x])]"
| "dict_set_add k x ((k', s) # rest) =
     (if k = k' then (k', set_add x s) # rest else (k', s) # dict_set_add k x rest)"




section \<open>Timestamps\<close>

text \<open>
  A \<open>datetime\<close> is its wall-clock reading in microseconds and, when it is aware, its UTC
  offset in microseconds. \<open>datetime.fromisoformat\<close> belongs to the Python library: the
  parsers take it as the parameter \<open>fromisoformat\<close>, \<open>None\<close> standing for \<open>ValueError\<close>.
\<close>

record datetime =
  wall :: int
  utcoffset :: "int option"

datatype py_error = TypeError

text \<open>\<open>a < b\<close> on datetimes raises \<open>TypeError\<close> when one is naive and the other aware.\<close>

definition dt_less :: "datetime \<Rightarrow> datetime \<Rightarrow> py_error + bool" where
  "dt_less a b =
     (case (utcoffset a, utcoffset b) of
        (None, None) \<Rightarrow> Inr (wall a < wall b)
      | (Some oa, Some ob) \<Rightarrow> Inr (wall a - oa < wall b - ob)
      | _ \<Rightarrow> Inl TypeError)"

definition day_us :: int where
  "day_us = 86400000000"

text \<open>\<open>datetime.now(timezone.utc) - timedelta(days=days_back)\<close>, \<open>now\<close> in UTC microseconds.\<close>

definition cutoff_date :: "int \<Rightarrow> int \<Rightarrow> datetime" where
  "cutoff_date now days_back = \<lparr>wall = now - days_back * day_us, utcoffset = Some 0\<rparr>"

text \<open>\<open>s.replace("Z", "+00:00")\<close>.\<close>

fun replace_Z :: "string \<Rightarrow> string" where
  "replace_Z [] = []"
| "replace_Z (c # cs) = (if c = CHR ''Z'' then ''+00:00'' @ replace_Z cs else c # replace_Z cs)"

section \<open>Raw CVE documents\<close>

record description =
  d_type :: "string option"
  d_cweId :: "string option"
  d_value :: "string option"

record affected_item =
  vendor :: "string option"
  product :: "string option"

record container =
  problemTypes :: "description list list"
  affected :: "affected_item list"
  references :: "string option list"

record cve_doc =
  cveId :: "string option"
  datePublished :: "string option"
  dateUpdated :: "string option"
  state :: "string option"
  assignerOrgId :: "string option"
  assignerShortName :: "string option"
  cna :: container
  adp :: "container list"

text \<open>
  A problem type is the list under its \<open>descriptions\<close> key, a reference is its \<open>url\<close> field.
  The \<open>metrics\<close> blocks are left out: no association depends on them.
\<close>

subsection \<open>Weakness codes\<close>

text \<open>
  The loop body shared by every parser:
  \<^verbatim>\<open>
  if desc.get("type") == "CWE":
      cwe_value = desc.get("cweId") or desc.get("value")
      if cwe_value and cwe_value.startswith("CWE-"):
          cwes_found.add(cwe_value)
  \<close>
\<close>

definition scan_desc :: "string list \<Rightarrow> description \<Rightarrow> string list" where
  "scan_desc cwes desc =
     (if d_type desc = Some ''CWE'' then
        (let cwe_value = py_or (d_cweId desc) (d_value desc)
         in if truthy cwe_value \<and> startswith (the cwe_value) ''CWE-''
            then set_add (the cwe_value) cwes else cwes)
      else cwes)"

definition scan_problem_types :: "string list \<Rightarrow> description list list \<Rightarrow> string list" where
  "scan_problem_types cwes pts = foldl (\<lambda>acc descs. foldl scan_desc acc descs) cwes pts"

definition cwes_found :: "cve_doc \<Rightarrow> string list" where
  "cwes_found doc =
     foldl (\<lambda>acc a. scan_problem_types acc (problemTypes a))
       (scan_problem_types [] (problemTypes (cna doc))) (adp doc)"

section \<open>\<open>scripts/build_graph.py\<close>\<close>

subsection \<open>\<open>parse_cve_files\<close>\<close>

datatype date_gate = Keep | Filtered | Raised

text \<open>
  \<^verbatim>\<open>
  if date_published:
      try:
          pub_date = datetime.fromisoformat(date_published.replace("Z", "+00:00"))
          if pub_date.tzinfo is None:
              pub_date = pub_date.replace(tzinfo=timezone.utc)
          if pub_date < cutoff_date:
              date_filtered += 1
              continue
      except (ValueError, AttributeError):
          pass
  \<close>
\<close>

definition date_gate_graph :: "(string \<Rightarrow> datetime option) \<Rightarrow> datetime \<Rightarrow> string option \<Rightarrow> date_gate" where
  "date_gate_graph fromisoformat cutoff date_published =
     (if truthy date_published then
        (case fromisoformat (replace_Z (the date_published)) of
           None \<Rightarrow> Keep
         | Some pub_date \<Rightarrow>
             (let pub_date' = (if utcoffset pub_date = None
                               then pub_date\<lparr>utcoffset := Some 0\<rparr> else pub_date)
              in case dt_less pub_date' cutoff of
                   Inl _ \<Rightarrow> Raised
                 | Inr True \<Rightarrow> Filtered
                 | Inr False \<Rightarrow> Keep))
      else Keep)"

record pcf_state =
  associations :: "((string \<times> string) \<times> int) list"
  cna_names :: "(string \<times> string) list"
  total_files :: int
  parsed_files :: int
  skipped_files :: int
  date_filtered :: int

definition pcf_init :: pcf_state where
  "pcf_init = \<lparr>associations = [], cna_names = [], total_files = 0, parsed_files = 0,
               skipped_files = 0, date_filtered = 0\<rparr>"

text \<open>
  \<^verbatim>\<open>
  if cna_short_name and cna_uuid not in cna_names:
      cna_names[cna_uuid] = cna_short_name
  elif cna_uuid not in cna_names:
      cna_names[cna_uuid] = cna_uuid
  \<close>
\<close>

definition store_name :: "string \<Rightarrow> string option \<Rightarrow> (string \<times> string) list \<Rightarrow> (string \<times> string) list" where
  "store_name cna_uuid cna_short_name names =
     (if truthy cna_short_name \<and> map_of names cna_uuid = None
        then dict_set cna_uuid (the cna_short_name) names
      else if map_of names cna_uuid = None
        then dict_set cna_uuid cna_uuid names
      else names)"

definition record_associations :: "string \<Rightarrow> string list \<Rightarrow> ((string \<times> string) \<times> int) list
    \<Rightarrow> ((string \<times> string) \<times> int) list" where
  "record_associations c cwes assoc = foldl (\<lambda>a cwe. dict_add (c, cwe) 1 a) assoc cwes"

text \<open>
  One iteration of the file loop. A file is \<open>None\<close> when \<open>json.load\<close> raises
  \<open>JSONDecodeError\<close>; every exception of the body counts the file as skipped.
\<close>

definition process_file :: "(string \<Rightarrow> datetime option) \<Rightarrow> datetime \<Rightarrow> pcf_state \<Rightarrow> cve_doc option \<Rightarrow> pcf_state" where
  "process_file fromisoformat cutoff st0 file =
     (let st = st0\<lparr>total_files := total_files st0 + 1\<rparr> in
      case file of
        None \<Rightarrow> st\<lparr>skipped_files := skipped_files st + 1\<rparr>
      | Some doc \<Rightarrow>
          (case date_gate_graph fromisoformat cutoff (datePublished doc) of
             Filtered \<Rightarrow> st\<lparr>date_filtered := date_filtered st + 1\<rparr>
           | Raised \<Rightarrow> st\<lparr>skipped_files := skipped_files st + 1\<rparr>
           | Keep \<Rightarrow>
               if \<not> truthy (assignerOrgId doc) then st\<lparr>skipped_files := skipped_files st + 1\<rparr>
               else
                 (let cna_uuid = the (assignerOrgId doc);
                      cwes = cwes_found doc
                  in st\<lparr>cna_names := store_name cna_uuid (assignerShortName doc) (cna_names st),
                        associations := record_associations cna_uuid cwes (associations st),
                        parsed_files := (if cwes \<noteq> [] then parsed_files st + 1
                                         else parsed_files st)\<rparr>)))"

definition parse_cve_files :: "(string \<Rightarrow> datetime option) \<Rightarrow> int \<Rightarrow> int \<Rightarrow> cve_doc option list \<Rightarrow> pcf_state" where
  "parse_cve_files fromisoformat now days_back files =
     foldl (process_file fromisoformat (cutoff_date now days_back)) pcf_init files"

subsection \<open>Graphs\<close>

text \<open>
  A \<open>networkx.Graph\<close>: nodes and undirected edges, each with a dict of attributes.
  \<open>add_node\<close> and \<open>add_edge\<close> update the attributes of a node or edge that exists;
  \<open>add_edge\<close> creates missing endpoints; the edge \<open>(u, v)\<close> is the edge \<open>(v, u)\<close>.
\<close>

datatype attr = S string | I int

type_synonym attrs = "(string \<times> attr) list"

record graph =
  nodes :: "(string \<times> attrs) list"
  edges :: "((string \<times> string) \<times> attrs) list"

definition empty_graph :: graph where
  "empty_graph = \<lparr>nodes = [], edges = []\<rparr>"

definition update_attrs :: "attrs \<Rightarrow> attrs \<Rightarrow> attrs" where
  "update_attrs new old = foldl (\<lambda>acc kv. dict_set (fst kv) (snd kv) acc) old new"

fun upsert :: "'k \<Rightarrow> attrs \<Rightarrow> ('k \<times> attrs) list \<Rightarrow> ('k \<times> attrs) list" where
  "upsert k new [] = [(k, update_attrs new [])]"
| "upsert k new ((k', old) # rest) =
     (if k = k' then (k', update_attrs new old) # rest else (k', old) # upsert k new rest)"

definition node_ids :: "graph \<Rightarrow> string set" where
  "node_ids G = fst ` set (nodes G)"

definition add_node :: "string \<Rightarrow> attrs \<Rightarrow> graph \<Rightarrow> graph" where
  "add_node n as G = G\<lparr>nodes := upsert n as (nodes G)\<rparr>"

definition same_edge :: "string \<times> string \<Rightarrow> string \<times> string \<Rightarrow> bool" where
  "same_edge e f = (e = f \<or> e = (snd f, fst f))"

definition edge_key :: "graph \<Rightarrow> string \<times> string \<Rightarrow> string \<times> string" where
  "edge_key G e = (if map_of (edges G) e = None \<and> map_of (edges G) (snd e, fst e) \<noteq> None
                   then (snd e, fst e) else e)"

definition add_edge :: "string \<Rightarrow> string \<Rightarrow> attrs \<Rightarrow> graph \<Rightarrow> graph" where
  "add_edge u v as G =
     (let G1 = add_node v [] (add_node u [] G)
      in G1\<lparr>edges := upsert (edge_key G1 (u, v)) as (edges G1)\<rparr>)"

definition has_edge :: "graph \<Rightarrow> string \<Rightarrow> string \<Rightarrow> bool" where
  "has_edge G u v = (map_of (edges G) (u, v) \<noteq> None \<or> map_of (edges G) (v, u) \<noteq> None)"

text \<open>\<open>G[u][v]\<close>: the attributes of the edge between \<open>u\<close> and \<open>v\<close>.\<close>

definition edge_attrs :: "graph \<Rightarrow> string \<Rightarrow> string \<Rightarrow> attrs option" where
  "edge_attrs G u v = map_of (edges G) (edge_key G (u, v))"

definition edge_weight :: "graph \<Rightarrow> string \<Rightarrow> string \<Rightarrow> attr option" where
  "edge_weight G u v = (case edge_attrs G u v of None \<Rightarrow> None | Some as \<Rightarrow> map_of as ''weight'')"

subsection \<open>\<open>build_graph\<close>\<close>

text \<open>\<open>cna_names.get(cna_uuid, cna_uuid)\<close>.\<close>

definition name_of :: "(string \<times> string) list \<Rightarrow> string \<Rightarrow> string" where
  "name_of names cna_uuid = (case map_of names cna_uuid of None \<Rightarrow> cna_uuid | Some n \<Rightarrow> n)"

definition cnas_of :: "((string \<times> string) \<times> int) list \<Rightarrow> string list" where
  "cnas_of assoc = foldl (\<lambda>acc kc. set_add (fst (fst kc)) acc) [] assoc"

definition cwes_of :: "((string \<times> string) \<times> int) list \<Rightarrow> string list" where
  "cwes_of assoc = foldl (\<lambda>acc kc. set_add (snd (fst kc)) acc) [] assoc"

definition add_cna_nodes :: "(string \<times> string) list \<Rightarrow> string list \<Rightarrow> graph \<Rightarrow> graph" where
  "add_cna_nodes names cnas G =
     foldl (\<lambda>g cna_uuid.
              add_node (name_of names cna_uuid)
                [(''type'', S ''cna''), (''label'', S (name_of names cna_uuid)),
                 (''uuid'', S cna_uuid)] g) G cnas"

definition add_cwe_nodes :: "string list \<Rightarrow> graph \<Rightarrow> graph" where
  "add_cwe_nodes cwes G =
     foldl (\<lambda>g cwe. add_node cwe [(''type'', S ''cwe''), (''label'', S cwe)] g) G cwes"

definition add_assoc_edges :: "(string \<times> string) list \<Rightarrow> ((string \<times> string) \<times> int) list \<Rightarrow> graph \<Rightarrow> graph" where
  "add_assoc_edges names assoc G =
     foldl (\<lambda>g kc. add_edge (name_of names (fst (fst kc))) (snd (fst kc))
                      [(''weight'', I (snd kc))] g) G assoc"

definition build_graph :: "((string \<times> string) \<times> int) list \<Rightarrow> (string \<times> string) list \<Rightarrow> graph" where
  "build_graph assoc names =
     add_assoc_edges names assoc
       (add_cwe_nodes (cwes_of assoc) (add_cna_nodes names (cnas_of assoc) empty_graph))"

section \<open>\<open>build_compact_graphs.py\<close>\<close>


subsection \<open>\<open>build_top_cna_cwe_bipartite\<close>\<close>







section \<open>\<open>scripts/build_extended_graphs.py\<close>\<close>

subsection \<open>\<open>build_vendor_vulnerability_profiles\<close>\<close>





section \<open>\<open>scripts/build_analytical_graphs.py\<close>\<close>

subsection \<open>The date check of \<open>parse_cve_analytical_data\<close>\<close>


section \<open>Notions used to state the properties\<close>

text \<open>The identities that occur as an end of some edge.\<close>

definition endpoints :: "graph \<Rightarrow> string set" where
  "endpoints G = (fst ` fst ` set (edges G)) \<union> (snd ` fst ` set (edges G))"

text \<open>
  An undirected graph stores each edge once: it never holds both \<open>(a, b)\<close> and \<open>(b, a)\<close>.
\<close>

definition sym_free :: "graph \<Rightarrow> bool" where
  "sym_free G = (\<forall>a b. a \<noteq> b \<longrightarrow> map_of (edges G) (a, b) \<noteq> None \<longrightarrow> map_of (edges G) (b, a) = None)"

text \<open>
  The association \<open>kc\<close> is drawn by \<open>build_graph\<close> as the edge between \<open>x\<close> and \<open>y\<close>.
\<close>

definition lands_on :: "(string \<times> string) list \<Rightarrow> string \<Rightarrow> string \<Rightarrow> (string \<times> string) \<times> int \<Rightarrow> bool" where
  "lands_on names x y kc = same_edge (x, y) (name_of names (fst (fst kc)), snd (fst kc))"

text \<open>The sum of the counts of the pairs \<open>(a, b)\<close> over all \<open>b\<close>.\<close>

definition incident_weight :: "((string \<times> string) \<times> int) list \<Rightarrow> string \<Rightarrow> int" where
  "incident_weight assoc a = sum_list (map snd (filter (\<lambda>kc. fst (fst kc) = a) assoc))"

text \<open>
  A file reaches the association loop of \<open>parse_cve_files\<close> under the authority \<open>a\<close>: it
  loads, passes the date check and carries \<open>a\<close> as its non-empty \<open>assignerOrgId\<close>.
\<close>

definition contributes :: "(string \<Rightarrow> datetime option) \<Rightarrow> datetime \<Rightarrow> string \<Rightarrow> cve_doc option \<Rightarrow> bool" where
  "contributes fromisoformat cutoff a fl =
     (case fl of None \<Rightarrow> False
      | Some doc \<Rightarrow> date_gate_graph fromisoformat cutoff (datePublished doc) = Keep
                   \<and> truthy (assignerOrgId doc) \<and> assignerOrgId doc = Some a)"

text \<open>
  The number of different weakness codes of a file that reaches the association loop under
  \<open>a\<close>, and 0 for any other file.
\<close>

definition weakness_count :: "(string \<Rightarrow> datetime option) \<Rightarrow> datetime \<Rightarrow> string \<Rightarrow> cve_doc option \<Rightarrow> int" where
  "weakness_count fromisoformat cutoff a fl =
     (if contributes fromisoformat cutoff a fl then int (card (set (cwes_found (the fl)))) else 0)"

text \<open>The number of files that add to some pair \<open>(a, b)\<close>.\<close>

definition contributing_records :: "(string \<Rightarrow> datetime option) \<Rightarrow> datetime \<Rightarrow> string \<Rightarrow> cve_doc option list \<Rightarrow> nat" where
  "contributing_records fromisoformat cutoff a files =
     length (filter (\<lambda>fl. contributes fromisoformat cutoff a fl \<and> cwes_found (the fl) \<noteq> []) files)"

section \<open>A three-record corpus\<close>

text \<open>
  Three documents: authority A with CWE-79 and CWE-89 published 2024-01-01, authority A with
  CWE-79 published 2024-06-01, authority B with CWE-89 published 2024-01-15. The clock reads
  2024-07-01 and the window is 365 days, so no document is too old. The table
  \<open>example_fromisoformat\<close> gives the readings of the three dates, which carry no offset.
\<close>

definition cwe_desc :: "string \<Rightarrow> description" where
  "cwe_desc c = \<lparr>d_type = Some ''CWE'', d_cweId = Some c, d_value = None\<rparr>"

definition example_doc :: "string \<Rightarrow> string option \<Rightarrow> string option \<Rightarrow> string list \<Rightarrow> cve_doc" where
  "example_doc org short published cwes =
     \<lparr>cveId = None, datePublished = published, dateUpdated = None, state = None,
      assignerOrgId = Some org, assignerShortName = short,
      cna = \<lparr>problemTypes = [map cwe_desc cwes], affected = [], references = []\<rparr>,
      adp = []\<rparr>"

definition example_fromisoformat :: "string \<Rightarrow> datetime option" where
  "example_fromisoformat s =
     (if s = ''2024-01-01'' then Some \<lparr>wall = 1704067200000000, utcoffset = None\<rparr>
      else if s = ''2024-06-01'' then Some \<lparr>wall = 1717200000000000, utcoffset = None\<rparr>
      else if s = ''2024-01-15'' then Some \<lparr>wall = 1705276800000000, utcoffset = None\<rparr>
      else None)"

definition example_now :: int where
  "example_now = 1719792000000000"

definition example_files :: "cve_doc option list" where
  "example_files =
     [Some (example_doc ''A'' None (Some ''2024-01-01'') [''CWE-79'', ''CWE-89'']),
      Some (example_doc ''A'' None (Some ''2024-06-01'') [''CWE-79'']),
      Some (example_doc ''B'' None (Some ''2024-01-15'') [''CWE-89''])]"

text \<open>A corpus in which every document names one weakness.\<close>

definition example_single_files :: "cve_doc option list" where
  "example_single_files =
     [Some (example_doc ''A'' None (Some ''2024-01-01'') [''CWE-79'']),
      Some (example_doc ''A'' None (Some ''2024-06-01'') [''CWE-89'']),
      Some (example_doc ''B'' None (Some ''2024-01-15'') [''CWE-89''])]"



section \<open>Properties\<close>

lemma map_of_dict_set: "map_of (dict_set k v xs) k' = (if k' = k then Some v else map_of xs k')"
  by (induction xs) auto

lemma map_fst_dict_set:
  "map fst (dict_set k v xs) = (if k \<in> set (map fst xs) then map fst xs else map fst xs @ [k])"
  by (induction xs) (force split: if_splits)+

lemma keys_dict_set: "fst ` set (dict_set k v xs) = insert k (fst ` set xs)"
  using arg_cong [OF map_fst_dict_set [of k v xs], of set] by (auto split: if_splits)

lemma map_of_upsert_other: "k' \<noteq> k \<Longrightarrow> map_of (upsert k new xs) k' = map_of xs k'"
  by (induction xs) auto

lemma map_of_upsert_same:
  "map_of (upsert k new xs) k = Some (update_attrs new (case map_of xs k of None \<Rightarrow> [] | Some old \<Rightarrow> old))"
  by (induction xs) auto

lemma map_fst_upsert:
  "map fst (upsert k new xs) = (if k \<in> set (map fst xs) then map fst xs else map fst xs @ [k])"
  by (induction xs) (force split: if_splits)+

lemma keys_upsert: "fst ` set (upsert k new xs) = insert k (fst ` set xs)"
  using arg_cong [OF map_fst_upsert [of k new xs], of set] by (auto split: if_splits)

lemma distinct_upsert: "distinct (map fst xs) \<Longrightarrow> distinct (map fst (upsert k new xs))"
  by (simp add: map_fst_upsert)

lemma set_set_add: "set (set_add x xs) = insert x (set xs)"
  by (auto simp: set_add_def)

lemma distinct_set_add: "distinct xs \<Longrightarrow> distinct (set_add x xs)"
  by (auto simp: set_add_def)

lemma node_ids_add_node: "node_ids (add_node n as G) = insert n (node_ids G)"
  by (simp add: node_ids_def add_node_def keys_upsert)

lemma edges_add_node: "edges (add_node n as G) = edges G"
  by (simp add: add_node_def)

lemma edge_key_cases: "edge_key G (u, v) = (u, v) \<or> edge_key G (u, v) = (v, u)"
  by (simp add: edge_key_def)

lemma node_ids_add_edge: "node_ids (add_edge u v as G) = insert u (insert v (node_ids G))"
  by (auto simp: add_edge_def Let_def node_ids_def add_node_def keys_upsert)

lemma endpoints_add_node: "endpoints (add_node n as G) = endpoints G"
  by (simp add: endpoints_def edges_add_node)

lemma endpoints_add_edge: "endpoints (add_edge u v as G) = insert u (insert v (endpoints G))"
proof -
  let ?G1 = "add_node v [] (add_node u [] G)"
  have k: "fst ` set (edges (add_edge u v as G)) = insert (edge_key ?G1 (u, v)) (fst ` set (edges G))"
    by (simp add: add_edge_def Let_def keys_upsert edges_add_node)
  from edge_key_cases [of ?G1 u v] show ?thesis
    unfolding endpoints_def k by auto
qed


lemma map_of_upsert:
  "map_of (upsert k new xs) k' =
     (if k' = k then Some (update_attrs new (case map_of xs k of None \<Rightarrow> [] | Some old \<Rightarrow> old))
      else map_of xs k')"
  by (simp add: map_of_upsert_other map_of_upsert_same)

lemma set_upsert:
  "e \<in> set (upsert k new xs) \<Longrightarrow> e \<in> set xs \<or> (\<exists>old. e = (k, update_attrs new old))"
  by (induction xs) (auto split: if_splits)

lemma set_foldl_set_add: "set (foldl (\<lambda>acc x. set_add (f x) acc) a xs) = set a \<union> f ` set xs"
  by (induction xs arbitrary: a) (auto simp: set_set_add)

lemma set_cnas_of: "set (cnas_of assoc) = (\<lambda>kc. fst (fst kc)) ` set assoc"
  by (simp add: cnas_of_def set_foldl_set_add)

lemma set_cwes_of: "set (cwes_of assoc) = (\<lambda>kc. snd (fst kc)) ` set assoc"
  by (simp add: cwes_of_def set_foldl_set_add)

lemma node_ids_add_cna_nodes:
  "node_ids (add_cna_nodes names cnas G) = node_ids G \<union> name_of names ` set cnas"
  unfolding add_cna_nodes_def by (induction cnas arbitrary: G) (auto simp: node_ids_add_node)

lemma endpoints_add_cna_nodes: "endpoints (add_cna_nodes names cnas G) = endpoints G"
  unfolding add_cna_nodes_def by (induction cnas arbitrary: G) (auto simp: endpoints_add_node)

lemma node_ids_add_cwe_nodes: "node_ids (add_cwe_nodes cwes G) = node_ids G \<union> set cwes"
  unfolding add_cwe_nodes_def by (induction cwes arbitrary: G) (auto simp: node_ids_add_node)

lemma endpoints_add_cwe_nodes: "endpoints (add_cwe_nodes cwes G) = endpoints G"
  unfolding add_cwe_nodes_def by (induction cwes arbitrary: G) (auto simp: endpoints_add_node)

lemma node_ids_add_assoc_edges:
  "node_ids (add_assoc_edges names assoc G) =
     node_ids G \<union> (\<lambda>kc. name_of names (fst (fst kc))) ` set assoc \<union> (\<lambda>kc. snd (fst kc)) ` set assoc"
  unfolding add_assoc_edges_def by (induction assoc arbitrary: G) (auto simp: node_ids_add_edge)

lemma endpoints_add_assoc_edges:
  "endpoints (add_assoc_edges names assoc G) =
     endpoints G \<union> (\<lambda>kc. name_of names (fst (fst kc))) ` set assoc \<union> (\<lambda>kc. snd (fst kc)) ` set assoc"
  unfolding add_assoc_edges_def by (induction assoc arbitrary: G) (auto simp: endpoints_add_edge)

lemma node_ids_empty: "node_ids empty_graph = {}"
  by (simp add: node_ids_def empty_graph_def)

lemma endpoints_empty: "endpoints empty_graph = {}"
  by (simp add: endpoints_def empty_graph_def)

lemma node_ids_build_graph:
  "node_ids (build_graph assoc names) =
     (\<lambda>kc. name_of names (fst (fst kc))) ` set assoc \<union> (\<lambda>kc. snd (fst kc)) ` set assoc"
  by (auto simp: build_graph_def node_ids_add_assoc_edges node_ids_add_cwe_nodes
      node_ids_add_cna_nodes set_cnas_of set_cwes_of node_ids_empty)

lemma endpoints_build_graph:
  "endpoints (build_graph assoc names) =
     (\<lambda>kc. name_of names (fst (fst kc))) ` set assoc \<union> (\<lambda>kc. snd (fst kc)) ` set assoc"
  by (auto simp: build_graph_def endpoints_add_assoc_edges endpoints_add_cwe_nodes
      endpoints_add_cna_nodes endpoints_empty)


lemma edge_key_edges: "edges G1 = edges G \<Longrightarrow> edge_key G1 e = edge_key G e"
  by (simp add: edge_key_def)

lemma edges_add_edge:
  "edges (add_edge u v as G) = upsert (edge_key G (u, v)) as (edges G)"
  by (simp add: add_edge_def Let_def edges_add_node edge_key_def)

lemma present_add_edge:
  "(map_of (edges (add_edge u v as G)) k \<noteq> None) = (k = edge_key G (u, v) \<or> map_of (edges G) k \<noteq> None)"
  by (simp add: edges_add_edge map_of_upsert)

lemma edge_key_add_edge:
  "edge_key (add_edge u v as G) e =
     (if \<not> (e = edge_key G (u, v) \<or> map_of (edges G) e \<noteq> None)
         \<and> ((snd e, fst e) = edge_key G (u, v) \<or> map_of (edges G) (snd e, fst e) \<noteq> None)
      then (snd e, fst e) else e)"
proof -
  have "edge_key (add_edge u v as G) e =
     (if \<not> (map_of (edges (add_edge u v as G)) e \<noteq> None)
         \<and> map_of (edges (add_edge u v as G)) (snd e, fst e) \<noteq> None
      then (snd e, fst e) else e)"
    by (simp add: edge_key_def)
  then show ?thesis by (simp only: present_add_edge)
qed

lemma edge_key_same_uv:
  "edge_key (add_edge u v as G) (u, v) = edge_key G (u, v)"
proof (cases "map_of (edges G) (u, v) = None \<and> map_of (edges G) (v, u) \<noteq> None")
  case True
  then have k0: "edge_key G (u, v) = (v, u)" by (simp add: edge_key_def)
  from True have "u \<noteq> v" by auto
  with True show ?thesis by (simp add: edge_key_add_edge k0)
next
  case False
  then have k0: "edge_key G (u, v) = (u, v)" by (auto simp: edge_key_def)
  from False show ?thesis by (auto simp: edge_key_add_edge k0)
qed

lemma edge_key_same_vu:
  assumes "sym_free G" "u \<noteq> v"
  shows "edge_key (add_edge u v as G) (v, u) = edge_key G (u, v)"
proof (cases "map_of (edges G) (u, v) = None \<and> map_of (edges G) (v, u) \<noteq> None")
  case True
  then have k0: "edge_key G (u, v) = (v, u)" by (simp add: edge_key_def)
  show ?thesis by (simp add: edge_key_add_edge k0)
next
  case False
  then have k0: "edge_key G (u, v) = (u, v)" by (auto simp: edge_key_def)
  from False have "map_of (edges G) (u, v) \<noteq> None \<or> map_of (edges G) (v, u) = None" by simp
  moreover have "map_of (edges G) (u, v) \<noteq> None \<Longrightarrow> map_of (edges G) (v, u) = None"
    using assms unfolding sym_free_def by blast
  ultimately have "map_of (edges G) (v, u) = None" by blast
  with assms(2) False show ?thesis by (auto simp: edge_key_add_edge k0)
qed


lemma edge_key_same:
  assumes "sym_free G" "same_edge (x, y) (u, v)"
  shows "edge_key (add_edge u v as G) (x, y) = edge_key G (u, v)"
proof (cases "(x, y) = (u, v)")
  case True
  then show ?thesis by (simp add: edge_key_same_uv)
next
  case False
  with assms(2) have xy: "x = v" "y = u" "u \<noteq> v" by (auto simp: same_edge_def)
  show ?thesis unfolding xy(1,2) by (rule edge_key_same_vu [OF assms(1) xy(3)])
qed

lemma edge_key_other:
  assumes "\<not> same_edge (x, y) (u, v)"
  shows "edge_key (add_edge u v as G) (x, y) = edge_key G (x, y)"
    and "edge_key G (x, y) \<noteq> edge_key G (u, v)"
proof -
  have ne: "(x, y) \<noteq> edge_key G (u, v)" "(y, x) \<noteq> edge_key G (u, v)"
    using assms edge_key_cases [of G u v] by (auto simp: same_edge_def)
  show "edge_key (add_edge u v as G) (x, y) = edge_key G (x, y)"
    using ne by (simp add: edge_key_add_edge) (simp add: edge_key_def)
  show "edge_key G (x, y) \<noteq> edge_key G (u, v)"
    using ne edge_key_cases [of G x y] by auto
qed

lemma edge_attrs_add_edge:
  assumes "sym_free G"
  shows "edge_attrs (add_edge u v as G) x y =
     (if same_edge (x, y) (u, v)
      then Some (update_attrs as (case edge_attrs G u v of None \<Rightarrow> [] | Some old \<Rightarrow> old))
      else edge_attrs G x y)"
proof (cases "same_edge (x, y) (u, v)")
  case True
  then show ?thesis
    by (simp add: edge_attrs_def edge_key_same [OF assms True] edges_add_edge map_of_upsert)
next
  case False
  then show ?thesis
    by (simp add: edge_attrs_def edge_key_other [OF False] edges_add_edge map_of_upsert)
qed

lemma sym_free_add_edge:
  assumes "sym_free G"
  shows "sym_free (add_edge u v as G)"
  unfolding sym_free_def
proof (intro allI impI)
  fix a b :: string
  assume ab: "a \<noteq> b" and p: "map_of (edges (add_edge u v as G)) (a, b) \<noteq> None"
  have sf: "\<And>c d. c \<noteq> d \<Longrightarrow> map_of (edges G) (c, d) \<noteq> None \<Longrightarrow> map_of (edges G) (d, c) = None"
    using assms unfolding sym_free_def by blast
  from p have p': "(a, b) = edge_key G (u, v) \<or> map_of (edges G) (a, b) \<noteq> None"
    by (simp only: present_add_edge)
  have "\<not> ((b, a) = edge_key G (u, v) \<or> map_of (edges G) (b, a) \<noteq> None)"
  proof (cases "map_of (edges G) (u, v) = None \<and> map_of (edges G) (v, u) \<noteq> None")
    case True
    then have k0: "edge_key G (u, v) = (v, u)" by (simp add: edge_key_def)
    from True p' ab sf show ?thesis unfolding k0 by (metis prod.inject)
  next
    case False
    then have k0: "edge_key G (u, v) = (u, v)" by (auto simp: edge_key_def)
    from False p' ab sf show ?thesis unfolding k0 by (metis prod.inject)
  qed
  then show "map_of (edges (add_edge u v as G)) (b, a) = None"
    using present_add_edge [of u v as G "(b, a)"] by blast
qed

lemma edge_weight_add_edge:
  assumes "sym_free G"
  shows "edge_weight (add_edge u v [(''weight'', I c)] G) x y =
     (if same_edge (x, y) (u, v) then Some (I c) else edge_weight G x y)"
  by (simp add: edge_weight_def edge_attrs_add_edge [OF assms] update_attrs_def map_of_dict_set)

lemma add_assoc_edges_snoc:
  "add_assoc_edges names (assoc @ [kc]) G =
     add_edge (name_of names (fst (fst kc))) (snd (fst kc)) [(''weight'', I (snd kc))]
       (add_assoc_edges names assoc G)"
  by (simp add: add_assoc_edges_def)

lemma sym_free_add_assoc_edges: "sym_free G \<Longrightarrow> sym_free (add_assoc_edges names assoc G)"
  by (induction assoc rule: rev_induct)
     (simp_all add: add_assoc_edges_snoc sym_free_add_edge, simp add: add_assoc_edges_def)

lemma edge_weight_add_assoc_edges:
  assumes "sym_free G"
  shows "edge_weight (add_assoc_edges names assoc G) x y =
     (if filter (lands_on names x y) assoc = [] then edge_weight G x y
      else Some (I (snd (last (filter (lands_on names x y) assoc)))))"
proof (induction assoc rule: rev_induct)
  case Nil
  show ?case by (simp add: add_assoc_edges_def)
next
  case (snoc kc assoc)
  have sf: "sym_free (add_assoc_edges names assoc G)"
    by (rule sym_free_add_assoc_edges [OF assms])
  show ?case
    by (simp add: add_assoc_edges_snoc edge_weight_add_edge [OF sf] snoc.IH
        lands_on_def [symmetric])
qed

lemma edges_add_cna_nodes: "edges (add_cna_nodes names cnas G) = edges G"
  unfolding add_cna_nodes_def by (induction cnas arbitrary: G) (simp_all add: edges_add_node)

lemma edges_add_cwe_nodes: "edges (add_cwe_nodes cwes G) = edges G"
  unfolding add_cwe_nodes_def by (induction cwes arbitrary: G) (simp_all add: edges_add_node)

lemma sym_free_nodes_only: "edges G = [] \<Longrightarrow> sym_free G"
  by (simp add: sym_free_def)

lemma edge_weight_no_edges: "edges G = [] \<Longrightarrow> edge_weight G x y = None"
  by (simp add: edge_weight_def edge_attrs_def)

lemma edge_weight_build_graph:
  "edge_weight (build_graph assoc names) x y =
     (if filter (lands_on names x y) assoc = [] then None
      else Some (I (snd (last (filter (lands_on names x y) assoc)))))"
proof -
  let ?G0 = "add_cwe_nodes (cwes_of assoc) (add_cna_nodes names (cnas_of assoc) empty_graph)"
  have e: "edges ?G0 = []"
    by (simp add: edges_add_cwe_nodes edges_add_cna_nodes empty_graph_def)
  show ?thesis
    unfolding build_graph_def
    by (simp add: edge_weight_add_assoc_edges [OF sym_free_nodes_only [OF e]]
        edge_weight_no_edges [OF e])
qed

lemma distinct_nodes_add_node:
  "distinct (map fst (nodes G)) \<Longrightarrow> distinct (map fst (nodes (add_node n as G)))"
  by (simp add: add_node_def distinct_upsert)

lemma distinct_nodes_add_edge:
  "distinct (map fst (nodes G)) \<Longrightarrow> distinct (map fst (nodes (add_edge u v as G)))"
  by (simp add: add_edge_def Let_def distinct_nodes_add_node)

lemma distinct_nodes_foldl:
  assumes "\<And>g x. distinct (map fst (nodes g)) \<Longrightarrow> distinct (map fst (nodes (f g x)))"
  shows "distinct (map fst (nodes G)) \<Longrightarrow> distinct (map fst (nodes (foldl f G xs)))"
  by (induction xs arbitrary: G) (simp_all add: assms)

lemma distinct_nodes_build_graph: "distinct (map fst (nodes (build_graph assoc names)))"
  unfolding build_graph_def add_assoc_edges_def add_cwe_nodes_def add_cna_nodes_def
  by (intro distinct_nodes_foldl distinct_nodes_add_edge distinct_nodes_add_node)
     (simp_all add: empty_graph_def)

lemma distinct_filter_one:
  "distinct (map fst xs) \<Longrightarrow> k \<in> fst ` set xs \<Longrightarrow> length (filter (\<lambda>n. fst n = k) xs) = 1"
  by (induction xs) (auto simp: filter_empty_conv image_iff)

lemma incident_dict_add:
  "incident_weight (dict_add (c, w) n assoc) a = incident_weight assoc a + (if c = a then n else 0)"
  by (induction assoc) (auto simp: incident_weight_def)

lemma incident_record:
  "incident_weight (record_associations c cwes assoc) a =
     incident_weight assoc a + (if c = a then int (length cwes) else 0)"
  unfolding record_associations_def
  by (induction cwes arbitrary: assoc) (auto simp: incident_dict_add)

lemma foldl_preserves:
  assumes "\<And>acc x. P acc \<Longrightarrow> P (f acc x)" and "P acc"
  shows "P (foldl f acc xs)"
  using assms(2) by (induction xs arbitrary: acc) (simp_all add: assms(1))

lemma distinct_scan_desc: "distinct cwes \<Longrightarrow> distinct (scan_desc cwes desc)"
  by (simp add: scan_desc_def Let_def distinct_set_add)

lemma distinct_scan_problem_types:
  "distinct cwes \<Longrightarrow> distinct (scan_problem_types cwes pts)"
  unfolding scan_problem_types_def
  by (intro foldl_preserves [where P = distinct] distinct_scan_desc)

lemma distinct_cwes_found: "distinct (cwes_found doc)"
  unfolding cwes_found_def
  by (intro foldl_preserves [where P = distinct] distinct_scan_problem_types) simp_all

lemma card_cwes_found: "card (set (cwes_found doc)) = length (cwes_found doc)"
  by (rule distinct_card) (rule distinct_cwes_found)

lemma incident_process_file:
  "incident_weight (associations (process_file f cutoff st fl)) a =
     incident_weight (associations st) a + weakness_count f cutoff a fl"
  by (cases fl; cases "date_gate_graph f cutoff (datePublished (the fl))")
     (auto simp: process_file_def Let_def weakness_count_def contributes_def incident_record truthy_def
       card_cwes_found split: option.splits)

lemma incident_foldl:
  "incident_weight (associations (foldl (process_file f cutoff) st files)) a =
     incident_weight (associations st) a + (\<Sum>fl\<leftarrow>files. weakness_count f cutoff a fl)"
  by (induction files arbitrary: st) (simp_all add: incident_process_file)

lemma incident_parse:
  "incident_weight (associations (parse_cve_files f now days_back files)) a =
     (\<Sum>fl\<leftarrow>files. weakness_count f (cutoff_date now days_back) a fl)"
  by (simp add: parse_cve_files_def incident_foldl) (simp add: pcf_init_def incident_weight_def)

lemma card_le_one_nonempty: "xs \<noteq> [] \<Longrightarrow> card (set xs) \<le> 1 \<Longrightarrow> card (set xs) = 1"
proof -
  assume "xs \<noteq> []" and le: "card (set xs) \<le> 1"
  then have "card (set xs) \<noteq> 0"
    by simp
  with le show ?thesis
    by arith
qed

lemma weakness_count_single:
  assumes "contributes f cutoff a fl \<longrightarrow> card (set (cwes_found (the fl))) \<le> 1"
  shows "weakness_count f cutoff a fl =
           (if contributes f cutoff a fl \<and> cwes_found (the fl) \<noteq> [] then 1 else 0)"
  using assms by (auto simp: weakness_count_def card_le_one_nonempty)

lemma sum_weakness_count_single:
  assumes "\<forall>fl \<in> set files. contributes f cutoff a fl \<longrightarrow> card (set (cwes_found (the fl))) \<le> 1"
  shows "(\<Sum>fl\<leftarrow>files. weakness_count f cutoff a fl) = int (contributing_records f cutoff a files)"
  using assms
  by (induction files) (simp_all add: contributing_records_def weakness_count_single)

lemma positive_dict_add:
  "\<forall>kc \<in> set assoc. 0 < snd kc \<Longrightarrow> 0 < n \<Longrightarrow> \<forall>kc \<in> set (dict_add k n assoc). 0 < snd kc"
  by (induction k n assoc rule: dict_add.induct) auto

lemma positive_record:
  "\<forall>kc \<in> set assoc. 0 < snd kc \<Longrightarrow> \<forall>kc \<in> set (record_associations c cwes assoc). 0 < snd kc"
  unfolding record_associations_def
proof (induction cwes arbitrary: assoc)
  case Nil
  then show ?case by simp
next
  case (Cons w ws)
  have "\<forall>kc \<in> set (dict_add (c, w) 1 assoc). 0 < snd kc"
    using Cons.prems by (rule positive_dict_add) simp
  from Cons.IH [OF this] show ?case by simp
qed

lemma positive_process_file:
  "\<forall>kc \<in> set (associations st). 0 < snd kc \<Longrightarrow>
   \<forall>kc \<in> set (associations (process_file f cutoff st fl)). 0 < snd kc"
  by (cases fl; cases "date_gate_graph f cutoff (datePublished (the fl))")
     (simp_all add: process_file_def Let_def positive_record)

lemma positive_foldl:
  "\<forall>kc \<in> set (associations st). 0 < snd kc \<Longrightarrow>
   \<forall>kc \<in> set (associations (foldl (process_file f cutoff) st files)). 0 < snd kc"
proof (induction files arbitrary: st)
  case Nil
  then show ?case by simp
next
  case (Cons fl fls)
  have "\<forall>kc \<in> set (associations (process_file f cutoff st fl)). 0 < snd kc"
    using Cons.prems by (rule positive_process_file)
  from Cons.IH [OF this] show ?case by simp
qed

lemma positive_parse:
  "\<forall>kc \<in> set (associations (parse_cve_files f now days_back files)). 0 < snd kc"
  unfolding parse_cve_files_def by (rule positive_foldl) (simp add: pcf_init_def)

lemma store_name_keeps:
  "map_of names u = Some n \<Longrightarrow> map_of (store_name u' s names) u = Some n"
  by (auto simp: store_name_def map_of_dict_set)

lemma store_name_other:
  "u \<noteq> u' \<Longrightarrow> map_of (store_name u' s names) u = map_of names u"
  by (auto simp: store_name_def map_of_dict_set)

lemma store_name_first:
  "map_of names u = None \<Longrightarrow>
   map_of (store_name u s names) u = Some (if truthy s then the s else u)"
  by (auto simp: store_name_def map_of_dict_set)

lemma names_process_file_keeps:
  "map_of (cna_names st) u = Some n \<Longrightarrow> map_of (cna_names (process_file f cutoff st fl)) u = Some n"
  by (cases fl; cases "date_gate_graph f cutoff (datePublished (the fl))")
     (simp_all add: process_file_def Let_def store_name_keeps)

lemma names_foldl_keeps:
  "map_of (cna_names st) u = Some n \<Longrightarrow>
   map_of (cna_names (foldl (process_file f cutoff) st files)) u = Some n"
  by (induction files arbitrary: st) (simp_all add: names_process_file_keeps)

lemma names_process_file_unbound:
  "map_of (cna_names st) u = None \<Longrightarrow> \<not> contributes f cutoff u fl \<Longrightarrow>
   map_of (cna_names (process_file f cutoff st fl)) u = None"
  by (cases fl; cases "date_gate_graph f cutoff (datePublished (the fl))")
     (auto simp: process_file_def Let_def contributes_def store_name_other truthy_def
       split: option.splits)

lemma names_foldl_unbound:
  "map_of (cna_names st) u = None \<Longrightarrow> \<forall>fl \<in> set files. \<not> contributes f cutoff u fl \<Longrightarrow>
   map_of (cna_names (foldl (process_file f cutoff) st files)) u = None"
  by (induction files arbitrary: st) (simp_all add: names_process_file_unbound)

lemma names_process_file_first:
  "map_of (cna_names st) u = None \<Longrightarrow> contributes f cutoff u (Some doc) \<Longrightarrow>
   map_of (cna_names (process_file f cutoff st (Some doc))) u =
     Some (if truthy (assignerShortName doc) then the (assignerShortName doc) else u)"
  by (auto simp: process_file_def Let_def contributes_def store_name_first)





















section \<open>The claims\<close>

text \<open>
  C10. A graph made by \<open>build_graph\<close> has no isolated node: every node identity of the
  graph is an end of at least one of its edges. The nodes come from the keys of the
  association mapping only, and each key gives one edge between the two nodes it names.
\<close>

theorem build_graph_no_isolated:
  "\<forall>n \<in> node_ids (build_graph assoc names).
     \<exists>e \<in> set (edges (build_graph assoc names)). n = fst (fst e) \<or> n = snd (fst e)"
proof
  fix n assume "n \<in> node_ids (build_graph assoc names)"
  then have "n \<in> endpoints (build_graph assoc names)"
    by (simp add: node_ids_build_graph endpoints_build_graph)
  then show "\<exists>e \<in> set (edges (build_graph assoc names)). n = fst (fst e) \<or> n = snd (fst e)"
    unfolding endpoints_def by force
qed

theorem build_graph_no_isolated_witness:
  "''acme'' \<in> node_ids (build_graph [((''u1'', ''CWE-79''), 2)] [(''u1'', ''acme'')])
   \<and> (\<exists>e \<in> set (edges (build_graph [((''u1'', ''CWE-79''), 2)] [(''u1'', ''acme'')])).
         ''acme'' = fst (fst e) \<or> ''acme'' = snd (fst e))"
proof -
  have "''acme'' \<in> node_ids (build_graph [((''u1'', ''CWE-79''), 2)] [(''u1'', ''acme'')])"
    by (simp add: node_ids_build_graph name_of_def)
  with build_graph_no_isolated [of "[((''u1'', ''CWE-79''), 2)]" "[(''u1'', ''acme'')]"]
  show ?thesis by blast
qed

text \<open>
  C8. \<open>build_graph\<close> keys an authority node by its display name, not by its UUID. The node
  identities of the graph are exactly the display names of the UUIDs of the mapping and the
  weakness codes of the mapping, so a UUID is a node only where it is itself such a name or
  code. When two different UUIDs \<open>u1\<close> and \<open>u2\<close> of the mapping have the same display name,
  whatever weaknesses they are associated with, the graph has exactly one node of that
  name, and that node carries the edges of both UUIDs. When moreover the mapping holds an
  association of \<open>u1\<close> and, later, one of \<open>u2\<close> with the same weakness \<open>w\<close>, and no
  association after that is drawn on the same edge, the weight of the edge is the count
  \<open>c2\<close> of the later one: the earlier count \<open>c1\<close> is overwritten, the two are not added.
\<close>

theorem build_graph_merges_same_name:
  assumes "u1 \<noteq> u2"
    and "name_of names u1 = name_of names u2"
    and "((u1, w1), d1) \<in> set assoc"
    and "((u2, w2), d2) \<in> set assoc"
  shows "node_ids (build_graph assoc names) =
           (\<lambda>kc. name_of names (fst (fst kc))) ` set assoc \<union> (\<lambda>kc. snd (fst kc)) ` set assoc
         \<and> length (filter (\<lambda>nd. fst nd = name_of names u1) (nodes (build_graph assoc names))) = 1
         \<and> edge_weight (build_graph assoc names) (name_of names u1) w1 \<noteq> None
         \<and> edge_weight (build_graph assoc names) (name_of names u1) w2 \<noteq> None
         \<and> (assoc = pre @ ((u1, w), c1) # mid @ ((u2, w), c2) # post
              \<and> (\<forall>kc \<in> set post. \<not> lands_on names (name_of names u1) w kc)
            \<longrightarrow> edge_weight (build_graph assoc names) (name_of names u1) w = Some (I c2))"
proof (intro conjI impI)
  show "node_ids (build_graph assoc names) =
      (\<lambda>kc. name_of names (fst (fst kc))) ` set assoc \<union> (\<lambda>kc. snd (fst kc)) ` set assoc"
    by (rule node_ids_build_graph)
next
  have "name_of names u1 \<in> node_ids (build_graph assoc names)"
    unfolding node_ids_build_graph using assms(3) by force
  then have "name_of names u1 \<in> fst ` set (nodes (build_graph assoc names))"
    by (simp add: node_ids_def)
  with distinct_nodes_build_graph [of assoc names]
  show "length (filter (\<lambda>nd. fst nd = name_of names u1) (nodes (build_graph assoc names))) = 1"
    by (rule distinct_filter_one)
next
  have "lands_on names (name_of names u1) w1 ((u1, w1), d1)"
    by (simp add: lands_on_def same_edge_def)
  with assms(3) have "filter (lands_on names (name_of names u1) w1) assoc \<noteq> []"
    by (auto simp: filter_empty_conv)
  then show "edge_weight (build_graph assoc names) (name_of names u1) w1 \<noteq> None"
    by (simp add: edge_weight_build_graph)
next
  have "lands_on names (name_of names u1) w2 ((u2, w2), d2)"
    by (simp add: lands_on_def same_edge_def assms(2))
  with assms(4) have "filter (lands_on names (name_of names u1) w2) assoc \<noteq> []"
    by (auto simp: filter_empty_conv)
  then show "edge_weight (build_graph assoc names) (name_of names u1) w2 \<noteq> None"
    by (simp add: edge_weight_build_graph)
next
  let ?P = "lands_on names (name_of names u1) w"
  assume a: "assoc = pre @ ((u1, w), c1) # mid @ ((u2, w), c2) # post
      \<and> (\<forall>kc \<in> set post. \<not> ?P kc)"
  then have post: "filter ?P post = []"
    by (simp add: filter_empty_conv)
  have hit: "?P ((u2, w), c2)"
    by (simp add: lands_on_def same_edge_def assms(2))
  have "filter ?P assoc = filter ?P (pre @ ((u1, w), c1) # mid) @ [((u2, w), c2)]"
    using post hit a by simp
  then have "filter ?P assoc \<noteq> [] \<and> snd (last (filter ?P assoc)) = c2"
    by simp
  then show "edge_weight (build_graph assoc names) (name_of names u1) w = Some (I c2)"
    by (simp add: edge_weight_build_graph)
qed

theorem build_graph_merges_same_name_witness:
  "''u1'' \<notin> node_ids (build_graph [((''u1'', ''CWE-79''), 5), ((''u2'', ''CWE-79''), 3)]
        [(''u1'', ''acme''), (''u2'', ''acme'')])
   \<and> ''u2'' \<notin> node_ids (build_graph [((''u1'', ''CWE-79''), 5), ((''u2'', ''CWE-79''), 3)]
        [(''u1'', ''acme''), (''u2'', ''acme'')])
   \<and> length (filter (\<lambda>nd. fst nd = ''acme'')
        (nodes (build_graph [((''u1'', ''CWE-79''), 5), ((''u2'', ''CWE-79''), 3)]
           [(''u1'', ''acme''), (''u2'', ''acme'')]))) = 1
   \<and> edge_weight (build_graph [((''u1'', ''CWE-79''), 5), ((''u2'', ''CWE-79''), 3)]
        [(''u1'', ''acme''), (''u2'', ''acme'')]) ''acme'' ''CWE-79'' = Some (I 3)"
  using build_graph_merges_same_name
    [of "''u1''" "''u2''" "[(''u1'', ''acme''), (''u2'', ''acme'')]" "''CWE-79''" 5
        "[((''u1'', ''CWE-79''), 5), ((''u2'', ''CWE-79''), 3)]" "''CWE-79''" 3
        "[]" "''CWE-79''" 5 "[]" 3 "[]"]
  by (simp add: name_of_def)

text \<open>
  C9. The display name of a UUID in \<open>cna_names\<close> is set by the first file that reaches
  the name store with that UUID (it loads, passes the date check and carries the UUID), and
  no later file changes it: the name is the short name of that first file, or the UUID
  itself when that file has no short name, whatever the files after it supply.
\<close>

theorem cna_names_first_record_wins:
  assumes "files = pre @ Some doc # post"
    and "\<forall>fl \<in> set pre. \<not> contributes fromisoformat (cutoff_date now days_back) u fl"
    and "contributes fromisoformat (cutoff_date now days_back) u (Some doc)"
  shows "map_of (cna_names (parse_cve_files fromisoformat now days_back files)) u =
           Some (if truthy (assignerShortName doc) then the (assignerShortName doc) else u)"
proof -
  let ?step = "process_file fromisoformat (cutoff_date now days_back)"
  have "map_of (cna_names (foldl ?step pcf_init pre)) u = None"
    using assms(2) by (intro names_foldl_unbound) (simp_all add: pcf_init_def)
  then have "map_of (cna_names (?step (foldl ?step pcf_init pre) (Some doc))) u =
      Some (if truthy (assignerShortName doc) then the (assignerShortName doc) else u)"
    using assms(3) by (rule names_process_file_first)
  then have "map_of (cna_names (foldl ?step (?step (foldl ?step pcf_init pre) (Some doc)) post)) u =
      Some (if truthy (assignerShortName doc) then the (assignerShortName doc) else u)"
    by (rule names_foldl_keeps)
  then show ?thesis
    by (simp add: parse_cve_files_def assms(1))
qed

theorem cna_names_first_record_wins_witness:
  "map_of (cna_names (parse_cve_files example_fromisoformat example_now 365
     [Some (example_doc ''u1'' None (Some ''2024-01-01'') [''CWE-79'']),
      Some (example_doc ''u1'' (Some ''acme'') (Some ''2024-06-01'') [''CWE-89''])])) ''u1''
   = Some ''u1''"
proof -
  have keep: "contributes example_fromisoformat (cutoff_date example_now 365) ''u1''
      (Some (example_doc ''u1'' None (Some ''2024-01-01'') [''CWE-79'']))"
    by (simp add: contributes_def date_gate_graph_def truthy_def example_doc_def
        example_fromisoformat_def cutoff_date_def example_now_def day_us_def dt_less_def)
  show ?thesis
    using cna_names_first_record_wins
      [of "[Some (example_doc ''u1'' None (Some ''2024-01-01'') [''CWE-79'']),
            Some (example_doc ''u1'' (Some ''acme'') (Some ''2024-06-01'') [''CWE-89''])]"
          "[]" "example_doc ''u1'' None (Some ''2024-01-01'') [''CWE-79'']"
          "[Some (example_doc ''u1'' (Some ''acme'') (Some ''2024-06-01'') [''CWE-89''])]"
          example_fromisoformat example_now 365 "''u1''"] keep
    by (simp add: truthy_def example_doc_def)
qed

text \<open>
  C2. The claim that the counts of the pairs \<open>(a, b)\<close> of one authority add up to the
  number of files that contributed to them fails on the three-record corpus: authority A
  has two contributing files and the counts 2 and 1, which add up to 3.
\<close>

theorem incident_weight_not_record_count:
  "incident_weight (associations (parse_cve_files example_fromisoformat example_now 365 example_files)) ''A''
     \<noteq> int (contributing_records example_fromisoformat (cutoff_date example_now 365) ''A'' example_files)"
  by code_simp

text \<open>
  C2, amended. For every authority \<open>a\<close> and every list of files, the counts of the pairs
  \<open>(a, b)\<close> add up to the sum, over the files that reach the association loop under \<open>a\<close>, of
  the number of different weakness codes of the file: a file with \<open>k\<close> different codes adds
  \<open>k\<close>, however often it names each of them. When every file that reaches the loop under
  \<open>a\<close> has at most one weakness code, the counts add up to the number of files that
  contributed to a pair of \<open>a\<close>.
\<close>

theorem incident_weight_counts_distinct_weaknesses:
  "incident_weight (associations (parse_cve_files fromisoformat now days_back files)) a =
     (\<Sum>fl\<leftarrow>files. weakness_count fromisoformat (cutoff_date now days_back) a fl)
   \<and> ((\<forall>fl \<in> set files. contributes fromisoformat (cutoff_date now days_back) a fl
          \<longrightarrow> card (set (cwes_found (the fl))) \<le> 1)
      \<longrightarrow> incident_weight (associations (parse_cve_files fromisoformat now days_back files)) a =
            int (contributing_records fromisoformat (cutoff_date now days_back) a files))"
proof (intro conjI impI)
  show total: "incident_weight (associations (parse_cve_files fromisoformat now days_back files)) a =
      (\<Sum>fl\<leftarrow>files. weakness_count fromisoformat (cutoff_date now days_back) a fl)"
    by (rule incident_parse)
  assume "\<forall>fl \<in> set files. contributes fromisoformat (cutoff_date now days_back) a fl
      \<longrightarrow> card (set (cwes_found (the fl))) \<le> 1"
  then have "(\<Sum>fl\<leftarrow>files. weakness_count fromisoformat (cutoff_date now days_back) a fl) =
      int (contributing_records fromisoformat (cutoff_date now days_back) a files)"
    by (rule sum_weakness_count_single)
  with total
  show "incident_weight (associations (parse_cve_files fromisoformat now days_back files)) a =
      int (contributing_records fromisoformat (cutoff_date now days_back) a files)"
    by simp
qed

theorem incident_weight_counts_distinct_weaknesses_witness:
  "incident_weight (associations
      (parse_cve_files example_fromisoformat example_now 365 example_single_files)) ''A''
     = int (contributing_records example_fromisoformat (cutoff_date example_now 365) ''A''
         example_single_files)
   \<and> contributing_records example_fromisoformat (cutoff_date example_now 365) ''A''
         example_single_files = 2"
proof -
  have single: "\<forall>fl \<in> set example_single_files.
      contributes example_fromisoformat (cutoff_date example_now 365) ''A'' fl
        \<longrightarrow> card (set (cwes_found (the fl))) \<le> 1"
    by code_simp
  have two: "contributing_records example_fromisoformat (cutoff_date example_now 365) ''A''
      example_single_files = 2"
    by code_simp
  from incident_weight_counts_distinct_weaknesses
    [of example_fromisoformat example_now 365 example_single_files "''A''"] single two
  show ?thesis by blast
qed







end
